theory Spec2Isabelle
  imports Complex_Main "HOL-Library.Word"
begin

unbundle bit_operations_syntax

section \<open>Data model\<close>

text \<open>
  The package searches a sample image inside a canvas image.  Both are Go
  \<open>image.RGBA\<close> values: a byte slice \<open>Pix\<close>, a row stride and a rectangle.
  Go's \<open>int\<close> is modelled by \<open>int\<close> (no image that fits in memory makes the index
  or difference arithmetic overflow 64 bits); the pixel bytes are \<open>8 word\<close> and the
  branch-free \<open>abs\<close> of \<open>mathutil.go\<close> is modelled on \<open>64 word\<close>.  The \<open>float64\<close>
  tolerance and similarity are modelled by exact rationals, and the conversion
  \<open>int64(x)\<close> by truncation towards zero.
\<close>

type_synonym uint8 = "8 word"
type_synonym int64 = "64 word"

record Point =
  X :: int
  Y :: int

record Rectangle =
  MinPt :: Point
  MaxPt :: Point

definition Add :: "Point \<Rightarrow> Point \<Rightarrow> Point" where
  "Add p q = \<lparr>X = X p + X q, Y = Y p + Y q\<rparr>"

definition Dx :: "Rectangle \<Rightarrow> int" where
  "Dx r = X (MaxPt r) - X (MinPt r)"

definition Dy :: "Rectangle \<Rightarrow> int" where
  "Dy r = Y (MaxPt r) - Y (MinPt r)"

record RGBA =
  Pix :: "uint8 list"
  Stride :: int
  Rect :: Rectangle

text \<open>An \<open>image.Image\<close> is either an \<open>*image.RGBA\<close> or some other image type.\<close>

datatype Image = RGBAImage RGBA | OtherImage

record Match =
  MRect :: Rectangle
  Similarity :: rat

text \<open>
  The two errors that the \<open>Err\<close> method of a \<open>context.Context\<close> reports, and the
  errors of the package: its four error variables, an error of the context, and
  errors defined by the caller's callback.
\<close>

datatype ctxError = Canceled | DeadlineExceeded

datatype error =
    ErrBreak
  | ErrUnsupportedImageType
  | ErrNotFound
  | ErrMultipleFound
  | ContextError ctxError
  | CallbackError string

text \<open>
  A call either panics (an index out of range in \<open>Pix\<close>) or returns an optional
  error together with a value: the state of the callback's closure for the scan,
  the match for \<open>Find\<close>, the list of matches for \<open>All\<close>.
\<close>

datatype 'a outcome = Panicked | Returned "error option" 'a

text \<open>
  The callback \<open>func(m Match) error\<close> is a closure: it is modelled as a function
  from the closure's state and the match to the returned error and the new state.
  The context is modelled by the answers of \<open>ctx.Err()\<close>, indexed by the row \<open>y\<close> at
  whose start the scan asks.
\<close>

type_synonym 's callback = "'s \<Rightarrow> Match \<Rightarrow> error option \<times> 's"
type_synonym Context = "int \<Rightarrow> ctxError option"

section \<open>mathutil.go\<close>

definition abs64 :: "int64 \<Rightarrow> int64" where
  "abs64 n = (let y = signed_drop_bit 63 n in (n XOR y) - y)"

section \<open>The scan (foreachRGBA)\<close>

text \<open>Indexing a slice: \<open>None\<close> stands for the run-time panic.\<close>

definition pixAt :: "uint8 list \<Rightarrow> int \<Rightarrow> uint8 option" where
  "pixAt xs i = (if 0 \<le> i \<and> i < int (length xs) then Some (xs ! nat i) else None)"

definition chan :: "uint8 \<Rightarrow> uint8 \<Rightarrow> int64" where
  "chan c s = abs64 (ucast c - ucast s)"

text \<open>\<open>delta\<close> of one pixel pair (lines 45 to 48), \<open>None\<close> when an index is out of range.\<close>

definition pixel_delta :: "uint8 list \<Rightarrow> uint8 list \<Rightarrow> int \<Rightarrow> int \<Rightarrow> int option" where
  "pixel_delta pixCanv pixSamp icanv isamp =
     (case (pixAt pixCanv icanv, pixAt pixSamp isamp) of
        (Some c0, Some s0) \<Rightarrow>
          (case (pixAt pixCanv (icanv + 1), pixAt pixSamp (isamp + 1)) of
             (Some c1, Some s1) \<Rightarrow>
               (case (pixAt pixCanv (icanv + 2), pixAt pixSamp (isamp + 2)) of
                  (Some c2, Some s2) \<Rightarrow> Some (sint (chan c0 s0 + chan c1 s1 + chan c2 s2))
                | _ \<Rightarrow> None)
           | _ \<Rightarrow> None)
      | _ \<Rightarrow> None)"

text \<open>
  The outcome of comparing one window: rejected (\<open>matched = false\<close>), not completed
  (a panic), or completed with the accumulated \<open>diff\<close>.
\<close>

datatype cmp = Reject | Crash | Cont int

definition pixSize :: int where
  "pixSize = 4"

text \<open>The inner loop \<open>for isamp < isampmax\<close> over the pixels of one sample row.\<close>

function pixLoop ::
  "uint8 list \<Rightarrow> uint8 list \<Rightarrow> int \<Rightarrow> int \<Rightarrow> int \<Rightarrow> int \<Rightarrow> int \<Rightarrow> int \<Rightarrow> cmp" where
  "pixLoop pixCanv pixSamp pixelDiffThreshold totalDiffThreshold isampmax icanv isamp diff =
     (if isamp < isampmax then
        (case pixel_delta pixCanv pixSamp icanv isamp of
           None \<Rightarrow> Crash
         | Some delta \<Rightarrow>
             if delta > pixelDiffThreshold then Reject
             else if diff + delta > totalDiffThreshold then Reject
             else pixLoop pixCanv pixSamp pixelDiffThreshold totalDiffThreshold isampmax
                    (icanv + pixSize) (isamp + pixSize) (diff + delta))
      else Cont diff)"
  by pat_completeness auto
termination
  by (relation "measure (\<lambda>(pc, ps, pt, tt, isampmax, icanv, isamp, diff). nat (isampmax - isamp))")
     (auto simp: pixSize_def)

declare pixLoop.simps [simp del]

text \<open>
  The loop \<open>matchLoop\<close> over the sample rows:
  \<open>for rowsamp := 0; rowsamp < rowsampmax; rowsamp += strideSamp\<close>, entered with
  \<open>rowsamp = 0\<close> and \<open>rowsampmax = strideSamp * hsamp\<close>.  With a positive stride
  \<open>rowsamp\<close> grows and the loop ends.  The body is entered with a stride that is
  not positive only for a hand-built sample of negative height and negative
  stride; \<open>rowsamp\<close> is then negative from the second row on, and the loop does not
  end normally: it panics on the negative index, or (when the width is negative
  too and no pixel is read) runs on.  The model gives \<open>Crash\<close> after the first row
  in that case.
\<close>

function matchLoop ::
  "uint8 list \<Rightarrow> uint8 list \<Rightarrow> int \<Rightarrow> int \<Rightarrow> int \<Rightarrow> int \<Rightarrow> int \<Rightarrow> int \<Rightarrow> int \<Rightarrow> int \<Rightarrow> int \<Rightarrow> cmp" where
  "matchLoop pixCanv pixSamp pixelDiffThreshold totalDiffThreshold strideCanv strideSamp wsamp
       rowsampmax rowcanv rowsamp diff =
     (if rowsamp < rowsampmax then
        (case pixLoop pixCanv pixSamp pixelDiffThreshold totalDiffThreshold
                (rowsamp + pixSize * wsamp) rowcanv rowsamp diff of
           Cont diff' \<Rightarrow>
             if 0 < strideSamp then
               matchLoop pixCanv pixSamp pixelDiffThreshold totalDiffThreshold strideCanv
                 strideSamp wsamp rowsampmax (rowcanv + strideCanv) (rowsamp + strideSamp) diff'
             else Crash
         | r \<Rightarrow> r)
      else Cont diff)"
  by pat_completeness auto
termination
  by (relation "measure (\<lambda>(pc, ps, pt, tt, sc, ss, ws, rowsampmax, rowcanv, rowsamp, diff).
                   nat (rowsampmax - rowsamp))")
     auto

declare matchLoop.simps [simp del]

text \<open>\<open>int64(x)\<close> for a floating-point \<open>x\<close>: truncation towards zero.\<close>

definition trunc64 :: "rat \<Rightarrow> int" where
  "trunc64 x = (if 0 \<le> x then \<lfloor>x\<rfloor> else \<lceil>x\<rceil>)"

text \<open>
  The values computed before the loops (lines 13 to 26).  \<open>wcanv\<close> and \<open>hcanv\<close> are
  the variables after lines 18 and 19, the numbers of window origins per row
  and per column.
\<close>

definition wsamp :: "RGBA \<Rightarrow> int" where
  "wsamp sample = Dx (Rect sample)"

definition hsamp :: "RGBA \<Rightarrow> int" where
  "hsamp sample = Dy (Rect sample)"

definition wcanv :: "RGBA \<Rightarrow> RGBA \<Rightarrow> int" where
  "wcanv canvas sample = Dx (Rect canvas) - (wsamp sample - 1)"

definition hcanv :: "RGBA \<Rightarrow> RGBA \<Rightarrow> int" where
  "hcanv canvas sample = Dy (Rect canvas) - (hsamp sample - 1)"

definition pixelDiffThreshold :: "rat \<Rightarrow> int" where
  "pixelDiffThreshold tolerance = (let pixelTolerance = 2 * tolerance in
     trunc64 (3 * 256 * pixelTolerance + 1 / 2))"

definition maxTotalDiff :: "RGBA \<Rightarrow> RGBA \<Rightarrow> int" where
  "maxTotalDiff canvas sample = wcanv canvas sample * hcanv canvas sample * 3 * 255"

definition totalDiffThreshold :: "RGBA \<Rightarrow> RGBA \<Rightarrow> rat \<Rightarrow> int" where
  "totalDiffThreshold canvas sample tolerance =
     trunc64 (tolerance * of_int (maxTotalDiff canvas sample) + 1 / 2)"

text \<open>Lines 36 to 64: the comparison of the window with origin \<open>(x, y)\<close>.\<close>

definition window :: "RGBA \<Rightarrow> RGBA \<Rightarrow> rat \<Rightarrow> int \<Rightarrow> int \<Rightarrow> cmp" where
  "window canvas sample tolerance x y =
     (let firstrowcanv = y * Stride canvas;
          rowcanv = firstrowcanv + x * pixSize;
          rowsampmax = Stride sample * hsamp sample
      in matchLoop (Pix canvas) (Pix sample) (pixelDiffThreshold tolerance)
           (totalDiffThreshold canvas sample tolerance) (Stride canvas) (Stride sample)
           (wsamp sample) rowsampmax rowcanv 0 0)"

text \<open>Lines 67 to 71: the match handed to the callback.\<close>

definition mkMatch :: "RGBA \<Rightarrow> RGBA \<Rightarrow> int \<Rightarrow> int \<Rightarrow> int \<Rightarrow> Match" where
  "mkMatch canvas sample x y diff =
     (let pt = Add (MinPt (Rect canvas)) \<lparr>X = x, Y = y\<rparr>
      in \<lparr>MRect = \<lparr>MinPt = pt, MaxPt = Add pt \<lparr>X = wsamp sample, Y = hsamp sample\<rparr>\<rparr>,
          Similarity = 1 - of_int diff / of_int (maxTotalDiff canvas sample)\<rparr>)"

text \<open>
  The loop over \<open>x\<close>.  \<open>Inl s\<close>: the row is finished and the scan goes on with
  callback state \<open>s\<close>; \<open>Inr r\<close>: the function leaves with \<open>r\<close>.
\<close>

function xLoop ::
  "RGBA \<Rightarrow> RGBA \<Rightarrow> rat \<Rightarrow> 's callback \<Rightarrow> int \<Rightarrow> int \<Rightarrow> 's \<Rightarrow> 's + 's outcome" where
  "xLoop canvas sample tolerance f y x s =
     (if x < wcanv canvas sample then
        (case window canvas sample tolerance x y of
           Crash \<Rightarrow> Inr Panicked
         | Reject \<Rightarrow> xLoop canvas sample tolerance f y (x + 1) s
         | Cont diff \<Rightarrow>
             (case f s (mkMatch canvas sample x y diff) of
                (Some err, s') \<Rightarrow> Inr (Returned (Some err) s')
              | (None, s') \<Rightarrow> xLoop canvas sample tolerance f y (x + 1) s'))
      else Inl s)"
  by pat_completeness auto
termination
  by (relation "measure (\<lambda>(canvas, sample, tolerance, f, y, x, s). nat (wcanv canvas sample - x))")
     auto

declare xLoop.simps [simp del]

text \<open>The loop over \<open>y\<close>, with the check of the context at the start of each row.\<close>

function yLoop ::
  "Context \<Rightarrow> RGBA \<Rightarrow> RGBA \<Rightarrow> rat \<Rightarrow> 's callback \<Rightarrow> int \<Rightarrow> 's \<Rightarrow> 's outcome" where
  "yLoop ctx canvas sample tolerance f y s =
     (if y < hcanv canvas sample then
        (case ctx y of
           Some err \<Rightarrow> Returned (Some (ContextError err)) s
         | None \<Rightarrow>
             (case xLoop canvas sample tolerance f y 0 s of
                Inr r \<Rightarrow> r
              | Inl s' \<Rightarrow> yLoop ctx canvas sample tolerance f (y + 1) s'))
      else Returned None s)"
  by pat_completeness auto
termination
  by (relation "measure (\<lambda>(ctx, canvas, sample, tolerance, f, y, s). nat (hcanv canvas sample - y))")
     auto

declare yLoop.simps [simp del]

definition foreachRGBA ::
  "Context \<Rightarrow> RGBA \<Rightarrow> RGBA \<Rightarrow> rat \<Rightarrow> 's callback \<Rightarrow> 's \<Rightarrow> 's outcome" where
  "foreachRGBA ctx canvas sample tolerance f s =
     (if Dx (Rect canvas) < wsamp sample \<or> Dy (Rect canvas) < hsamp sample
         \<or> wsamp sample = 0 \<or> hsamp sample = 0
      then Returned None s
      else yLoop ctx canvas sample tolerance f 0 s)"

section \<open>The public operations\<close>

definition Foreach ::
  "Context \<Rightarrow> Image \<Rightarrow> Image \<Rightarrow> rat \<Rightarrow> 's callback \<Rightarrow> 's \<Rightarrow> 's outcome" where
  "Foreach ctx canvas sample tolerance f s =
     (case sample of
        RGBAImage smp \<Rightarrow>
          (case canvas of
             RGBAImage c \<Rightarrow> foreachRGBA ctx c smp tolerance f s
           | OtherImage \<Rightarrow> Returned (Some ErrUnsupportedImageType) s)
      | OtherImage \<Rightarrow> Returned (Some ErrUnsupportedImageType) s)"

datatype Selection = Fastest | Best | Only

text \<open>The zero value of \<open>Match\<close>, the initial value of \<open>best\<close> in \<open>Find\<close>.\<close>

definition zeroMatch :: Match where
  "zeroMatch = \<lparr>MRect = \<lparr>MinPt = \<lparr>X = 0, Y = 0\<rparr>, MaxPt = \<lparr>X = 0, Y = 0\<rparr>\<rparr>, Similarity = 0\<rparr>"

text \<open>The closure of \<open>Find\<close>; its state is the pair of \<open>best\<close> and \<open>count\<close>.\<close>

definition findCallback :: "Selection \<Rightarrow> (Match \<times> int) callback" where
  "findCallback selection = (\<lambda>(best, count) m.
     (let best' = (if count = 0 \<or> Similarity m > Similarity best then m else best);
          count' = count + 1
      in (if selection = Fastest then Some ErrBreak else None, (best', count'))))"

definition Find :: "Context \<Rightarrow> Image \<Rightarrow> Image \<Rightarrow> rat \<Rightarrow> Selection \<Rightarrow> Match outcome" where
  "Find ctx canvas sample tolerance selection =
     (case Foreach ctx canvas sample tolerance (findCallback selection) (zeroMatch, 0) of
        Panicked \<Rightarrow> Panicked
      | Returned err (best, count) \<Rightarrow>
          (let err1 = (if err = Some ErrBreak then None else err);
               err2 = (if err1 = None then
                         (if count = 0 then Some ErrNotFound
                          else if selection = Only \<and> count > 1 then Some ErrMultipleFound
                          else err1)
                       else err1)
           in Returned err2 best))"

text \<open>
  The closure of \<open>All\<close> appends to \<open>mm\<close>.  \<open>sort.Sort\<close> belongs to Go's standard
  library; \<open>All\<close> takes the permutation it computes as the parameter \<open>srt\<close>.
\<close>

definition allCallback :: "(Match list) callback" where
  "allCallback = (\<lambda>mm m. (None, mm @ [m]))"

definition All ::
  "(Match list \<Rightarrow> Match list) \<Rightarrow> Context \<Rightarrow> Image \<Rightarrow> Image \<Rightarrow> rat \<Rightarrow> (Match list) outcome" where
  "All srt ctx canvas sample tolerance =
     (case Foreach ctx canvas sample tolerance allCallback [] of
        Panicked \<Rightarrow> Panicked
      | Returned err mm \<Rightarrow> Returned err (srt mm))"

text \<open>
  Observation of a callback: \<open>traced f\<close> behaves as \<open>f\<close> and records every match it
  is called with, together with what \<open>f\<close> returned for it.
\<close>

definition traced :: "'s callback \<Rightarrow> ((Match \<times> error option) list \<times> 's) callback" where
  "traced f = (\<lambda>(tr, s) m. (case f s m of (e, s') \<Rightarrow> (e, (tr @ [(m, e)], s'))))"

section \<open>Reference descriptions\<close>

text \<open>
  The scan as the specification words it: the window origins in row-major order,
  \<open>y\<close> from \<open>0\<close> to the canvas height minus the sample height inclusive and \<open>x\<close> from
  \<open>0\<close> to the canvas width minus the sample width inclusive, each origin
  contributing its match when the window is accepted.
\<close>

definition originMatch :: "RGBA \<Rightarrow> RGBA \<Rightarrow> rat \<Rightarrow> int \<Rightarrow> int \<Rightarrow> Match list" where
  "originMatch canvas sample tolerance y x =
     (case window canvas sample tolerance x y of
        Cont diff \<Rightarrow> [mkMatch canvas sample x y diff]
      | _ \<Rightarrow> [])"

definition rowMatches :: "RGBA \<Rightarrow> RGBA \<Rightarrow> rat \<Rightarrow> int \<Rightarrow> Match list" where
  "rowMatches canvas sample tolerance y =
     concat (map (originMatch canvas sample tolerance y) [0 .. Dx (Rect canvas) - Dx (Rect sample)])"

definition rowMajorMatches :: "RGBA \<Rightarrow> RGBA \<Rightarrow> rat \<Rightarrow> Match list" where
  "rowMajorMatches canvas sample tolerance =
     (if Dx (Rect sample) = 0 \<or> Dy (Rect sample) = 0 then []
      else concat (map (rowMatches canvas sample tolerance)
                     [0 .. Dy (Rect canvas) - Dy (Rect sample)]))"

text \<open>The order of two matches by origin: ascending \<open>y\<close>, then ascending \<open>x\<close>.\<close>

definition originBefore :: "Match \<Rightarrow> Match \<Rightarrow> bool" where
  "originBefore a b \<longleftrightarrow>
     Y (MinPt (MRect a)) < Y (MinPt (MRect b))
     \<or> (Y (MinPt (MRect a)) = Y (MinPt (MRect b)) \<and> X (MinPt (MRect a)) < X (MinPt (MRect b)))"

text \<open>
  Handing a list of matches to a callback one after the other, stopping at the
  first error the callback returns.
\<close>

fun feed :: "'s callback \<Rightarrow> Match list \<Rightarrow> 's \<Rightarrow> error option \<times> 's" where
  "feed f [] s = (None, s)"
| "feed f (m # ms) s =
     (case f s m of
        (Some err, s') \<Rightarrow> (Some err, s')
      | (None, s') \<Rightarrow> feed f ms s')"

text \<open>
  The best match as the specification words it: the first match, replaced by a
  later one only when the later similarity is strictly greater.
\<close>

definition keepBetter :: "Match \<Rightarrow> Match \<Rightarrow> Match" where
  "keepBetter best m = (if Similarity m > Similarity best then m else best)"

fun pickBest :: "Match list \<Rightarrow> Match" where
  "pickBest [] = zeroMatch"
| "pickBest (m # ms) = foldl keepBetter m ms"

text \<open>
  The window threshold and the denominator of the similarity as the specification
  words them: from the width and height of the sample, rounded half up.
\<close>

definition specMaxTotalDiff :: "RGBA \<Rightarrow> int" where
  "specMaxTotalDiff sample = Dx (Rect sample) * Dy (Rect sample) * 3 * 255"

definition specWindowThreshold :: "RGBA \<Rightarrow> rat \<Rightarrow> int" where
  "specWindowThreshold sample tolerance =
     \<lfloor>tolerance * of_int (Dx (Rect sample) * Dy (Rect sample) * 3 * 255) + 1 / 2\<rfloor>"

text \<open>
  An image whose \<open>Pix\<close> holds every pixel of its rectangle, as \<open>image.NewRGBA\<close> and
  \<open>SubImage\<close> build them: no index of the scan is out of range.
\<close>

definition wellFormed :: "RGBA \<Rightarrow> bool" where
  "wellFormed img \<longleftrightarrow>
     0 \<le> Dx (Rect img) \<and> 0 \<le> Dy (Rect img) \<and> pixSize * Dx (Rect img) \<le> Stride img \<and>
     (0 < Dx (Rect img) \<and> 0 < Dy (Rect img) \<longrightarrow>
        (Dy (Rect img) - 1) * Stride img + pixSize * Dx (Rect img) \<le> int (length (Pix img)))"

section \<open>Example images\<close>

definition rect :: "int \<Rightarrow> int \<Rightarrow> int \<Rightarrow> int \<Rightarrow> Rectangle" where
  "rect x0 y0 x1 y1 = \<lparr>MinPt = \<lparr>X = x0, Y = y0\<rparr>, MaxPt = \<lparr>X = x1, Y = y1\<rparr>\<rparr>"

text \<open>A black sample of one pixel.\<close>

definition black1 :: RGBA where
  "black1 = \<lparr>Pix = [0, 0, 0, 255], Stride = 4, Rect = rect 0 0 1 1\<rparr>"

text \<open>A black sample of two by two pixels.\<close>

definition black2 :: RGBA where
  "black2 = \<lparr>Pix = [0, 0, 0, 255, 0, 0, 0, 255, 0, 0, 0, 255, 0, 0, 0, 255], Stride = 8,
              Rect = rect 0 0 2 2\<rparr>"

text \<open>A canvas of one pixel, one step of red away from black.\<close>

definition dark1 :: RGBA where
  "dark1 = \<lparr>Pix = [1, 0, 0, 255], Stride = 4, Rect = rect 0 0 1 1\<rparr>"

text \<open>A canvas of two pixels in one row: a yellow pixel and a black pixel.\<close>

definition yellowBlack :: RGBA where
  "yellowBlack = \<lparr>Pix = [200, 200, 0, 255, 0, 0, 0, 255], Stride = 8, Rect = rect 0 0 2 1\<rparr>"

text \<open>
  A canvas of three by two pixels whose rectangle starts at \<open>(10, 20)\<close>: black
  pixels, apart from a nearly black one at offset \<open>(1, 0)\<close> and a white one at
  offset \<open>(2, 1)\<close>.
\<close>

definition board :: RGBA where
  "board = \<lparr>Pix = [0, 0, 0, 255,  0, 2, 0, 255,  0, 0, 0, 255,
                    0, 0, 0, 255,  0, 0, 0, 255,  255, 255, 255, 255],
             Stride = 12, Rect = rect 10 20 13 22\<rparr>"

text \<open>
  \<open>Match.Before\<close>, with \<open>SimilarityPrecision\<close>, and a sort by insertion with it: one
  of the permutations \<open>sort.Sort\<close> may compute.
\<close>

definition SimilarityPrecision :: rat where
  "SimilarityPrecision = 1 / 1000000"

definition Before :: "Match \<Rightarrow> Match \<Rightarrow> bool" where
  "Before a b =
     (if \<bar>Similarity a - Similarity b\<bar> \<ge> SimilarityPrecision then Similarity a > Similarity b
      else if Y (MinPt (MRect a)) \<noteq> Y (MinPt (MRect b))
        then Y (MinPt (MRect a)) < Y (MinPt (MRect b))
      else if X (MinPt (MRect a)) \<noteq> X (MinPt (MRect b))
        then X (MinPt (MRect a)) < X (MinPt (MRect b))
      else False)"

fun insertMatch :: "Match \<Rightarrow> Match list \<Rightarrow> Match list" where
  "insertMatch m [] = [m]"
| "insertMatch m (a # as) = (if Before m a then m # a # as else a # insertMatch m as)"

fun insertionSort :: "Match list \<Rightarrow> Match list" where
  "insertionSort [] = []"
| "insertionSort (m # ms) = insertMatch m (insertionSort ms)"

text \<open>A callback that counts its calls and returns \<open>ErrBreak\<close> every time.\<close>

definition stopAtFirst :: "int callback" where
  "stopAtFirst = (\<lambda>n m. (Some ErrBreak, n + 1))"

text \<open>A context that is never cancelled, and one that is cancelled from the start.\<close>

definition background :: Context where
  "background = (\<lambda>y. None)"

definition cancelled :: Context where
  "cancelled = (\<lambda>y. Some Canceled)"

section \<open>Facts about the comparison of one window\<close>










lemma pixLoop_mono:
  "pixLoop pc ps pth tth mx ic is diff = Cont d \<Longrightarrow> pth \<le> pth' \<Longrightarrow> tth \<le> tth' \<Longrightarrow>
   pixLoop pc ps pth' tth' mx ic is diff = Cont d"
proof (induction pc ps pth tth mx ic "is" diff rule: pixLoop.induct)
  case (1 pc ps pth tth mx ic "is" diff)
  show ?case
  proof (cases "is < mx")
    case False
    with "1.prems" show ?thesis by (simp add: pixLoop.simps)
  next
    case True
    with "1.prems" obtain delta where dl: "pixel_delta pc ps ic is = Some delta"
      and a: "\<not> delta > pth" and b: "\<not> diff + delta > tth"
      and r: "pixLoop pc ps pth tth mx (ic + pixSize) (is + pixSize) (diff + delta) = Cont d"
      by (subst (asm) pixLoop.simps) (auto split: option.splits if_splits)
    have "pixLoop pc ps pth' tth' mx (ic + pixSize) (is + pixSize) (diff + delta) = Cont d"
      using "1.IH"[OF True dl a b r] "1.prems" by simp
    with True dl a b "1.prems"(2,3) show ?thesis
      by (subst pixLoop.simps) auto
  qed
qed

lemma matchLoop_step:
  "matchLoop pc ps pth tth sc ss ws mx rc rs diff = Cont d \<Longrightarrow> rs < mx \<Longrightarrow>
   0 < ss \<and> (\<exists>diff'. pixLoop pc ps pth tth (rs + pixSize * ws) rc rs diff = Cont diff'
         \<and> matchLoop pc ps pth tth sc ss ws mx (rc + sc) (rs + ss) diff' = Cont d)"
  by (subst (asm) matchLoop.simps) (auto split: cmp.splits if_splits)



lemma matchLoop_exit:
  "\<not> rs < mx \<Longrightarrow> matchLoop pc ps pth tth sc ss ws mx rc rs diff = Cont diff"
  by (subst matchLoop.simps) simp

lemma matchLoop_mono:
  "matchLoop pc ps pth tth sc ss ws mx rc rs diff = Cont d \<Longrightarrow> pth \<le> pth' \<Longrightarrow> tth \<le> tth' \<Longrightarrow>
   matchLoop pc ps pth' tth' sc ss ws mx rc rs diff = Cont d"
proof (induction pc ps pth tth sc ss ws mx rc rs diff rule: matchLoop.induct)
  case (1 pc ps pth tth sc ss ws mx rc rs diff)
  show ?case
  proof (cases "rs < mx")
    case False
    then have "matchLoop pc ps pth tth sc ss ws mx rc rs diff = Cont diff"
      and "matchLoop pc ps pth' tth' sc ss ws mx rc rs diff = Cont diff"
      by (rule matchLoop_exit)+
    with "1.prems"(1) show ?thesis by simp
  next
    case True
    from matchLoop_step[OF "1.prems"(1) True] obtain diff' where pos: "0 < ss"
      and p: "pixLoop pc ps pth tth (rs + pixSize * ws) rc rs diff = Cont diff'"
      and r: "matchLoop pc ps pth tth sc ss ws mx (rc + sc) (rs + ss) diff' = Cont d" by blast
    have "matchLoop pc ps pth' tth' sc ss ws mx (rc + sc) (rs + ss) diff' = Cont d"
      using "1.IH"[OF True p pos r] "1.prems" by simp
    with True pos pixLoop_mono[OF p "1.prems"(2,3)] show ?thesis
      by (subst matchLoop.simps) simp
  qed
qed

lemma trunc64_mono: "a \<le> b \<Longrightarrow> trunc64 a \<le> trunc64 b"
proof -
  assume ab: "a \<le> b"
  show ?thesis
  proof (cases "0 \<le> a")
    case True
    with ab show ?thesis by (simp add: trunc64_def floor_mono)
  next
    case False
    show ?thesis
    proof (cases "0 \<le> b")
      case True
      have "\<lceil>a\<rceil> \<le> 0" using False by (simp add: ceiling_le_iff)
      moreover have "0 \<le> \<lfloor>b\<rfloor>" using True by simp
      ultimately have "\<lceil>a\<rceil> \<le> \<lfloor>b\<rfloor>" by (rule order_trans)
      then show ?thesis using False True by (simp add: trunc64_def)
    next
      case b: False
      with False ab show ?thesis by (simp add: trunc64_def ceiling_mono)
    qed
  qed
qed

lemma pixelDiffThreshold_mono: "t1 \<le> t2 \<Longrightarrow> pixelDiffThreshold t1 \<le> pixelDiffThreshold t2"
  unfolding pixelDiffThreshold_def Let_def by (rule trunc64_mono) simp

lemma totalDiffThreshold_mono:
  "t1 \<le> t2 \<Longrightarrow> 0 \<le> maxTotalDiff canvas sample \<Longrightarrow>
   totalDiffThreshold canvas sample t1 \<le> totalDiffThreshold canvas sample t2"
  unfolding totalDiffThreshold_def by (rule trunc64_mono) (simp add: mult_right_mono)

lemma window_mono:
  "window canvas sample t1 x y = Cont d \<Longrightarrow> t1 \<le> t2 \<Longrightarrow> 0 \<le> maxTotalDiff canvas sample \<Longrightarrow>
   window canvas sample t2 x y = Cont d"
  unfolding window_def Let_def
  by (erule matchLoop_mono) (simp_all add: pixelDiffThreshold_mono totalDiffThreshold_mono)



lemma maxTotalDiff_pos:
  "0 < wcanv canvas sample \<Longrightarrow> 0 < hcanv canvas sample \<Longrightarrow> 0 < maxTotalDiff canvas sample"
  by (simp add: maxTotalDiff_def)

section \<open>An invariant rule for the scan\<close>

lemma xLoop_exit: "\<not> x < wcanv canvas sample \<Longrightarrow> xLoop canvas sample tol f y x s = Inl s"
  by (subst xLoop.simps) simp

lemma xLoop_Crash:
  "x < wcanv canvas sample \<Longrightarrow> window canvas sample tol x y = Crash \<Longrightarrow>
   xLoop canvas sample tol f y x s = Inr Panicked"
  by (subst xLoop.simps) simp

lemma xLoop_Reject:
  "x < wcanv canvas sample \<Longrightarrow> window canvas sample tol x y = Reject \<Longrightarrow>
   xLoop canvas sample tol f y x s = xLoop canvas sample tol f y (x + 1) s"
  by (subst xLoop.simps) simp

lemma xLoop_Cont_err:
  "x < wcanv canvas sample \<Longrightarrow> window canvas sample tol x y = Cont d \<Longrightarrow>
   f s (mkMatch canvas sample x y d) = (Some err, s') \<Longrightarrow>
   xLoop canvas sample tol f y x s = Inr (Returned (Some err) s')"
  by (subst xLoop.simps) simp

lemma xLoop_Cont_ok:
  "x < wcanv canvas sample \<Longrightarrow> window canvas sample tol x y = Cont d \<Longrightarrow>
   f s (mkMatch canvas sample x y d) = (None, s') \<Longrightarrow>
   xLoop canvas sample tol f y x s = xLoop canvas sample tol f y (x + 1) s'"
  by (subst xLoop.simps) simp

lemma yLoop_exit: "\<not> y < hcanv canvas sample \<Longrightarrow> yLoop ctx canvas sample tol f y s = Returned None s"
  by (subst yLoop.simps) simp

lemma yLoop_cancel:
  "y < hcanv canvas sample \<Longrightarrow> ctx y = Some err \<Longrightarrow>
   yLoop ctx canvas sample tol f y s = Returned (Some (ContextError err)) s"
  by (subst yLoop.simps) simp

lemma yLoop_leave:
  "y < hcanv canvas sample \<Longrightarrow> ctx y = None \<Longrightarrow> xLoop canvas sample tol f y 0 s = Inr r \<Longrightarrow>
   yLoop ctx canvas sample tol f y s = r"
  by (subst yLoop.simps) simp

lemma yLoop_next:
  "y < hcanv canvas sample \<Longrightarrow> ctx y = None \<Longrightarrow> xLoop canvas sample tol f y 0 s = Inl s' \<Longrightarrow>
   yLoop ctx canvas sample tol f y s = yLoop ctx canvas sample tol f (y + 1) s'"
  by (subst yLoop.simps) simp

text \<open>
  An invariant rule for the scan.  \<open>I\<close> holds of the callback state while the scan
  goes on, \<open>Q\<close> of the returned error and state.
\<close>

lemma xLoop_rule:
  assumes step: "\<And>x d s e s'. I s \<Longrightarrow> 0 \<le> x \<Longrightarrow> x < wcanv canvas sample \<Longrightarrow>
            window canvas sample tol x y = Cont d \<Longrightarrow> f s (mkMatch canvas sample x y d) = (e, s') \<Longrightarrow>
            (case e of None \<Rightarrow> I s' | Some err \<Rightarrow> Q (Some err) s')"
    and "I s" and "0 \<le> x0"
  shows "case xLoop canvas sample tol f y x0 s of
           Inl s' \<Rightarrow> I s'
         | Inr Panicked \<Rightarrow> True
         | Inr (Returned e s') \<Rightarrow> Q e s'"
  using assms(2,3)
proof (induction "nat (wcanv canvas sample - x0)" arbitrary: x0 s rule: less_induct)
  case less
  show ?case
  proof (cases "x0 < wcanv canvas sample")
    case False
    with less.prems show ?thesis by (simp add: xLoop_exit)
  next
    case True
    then have m: "nat (wcanv canvas sample - (x0 + 1)) < nat (wcanv canvas sample - x0)" by simp
    show ?thesis
    proof (cases "window canvas sample tol x0 y")
      case Crash
      with True show ?thesis by (simp add: xLoop_Crash)
    next
      case Reject
      with True less.hyps[OF m, of s] less.prems show ?thesis by (simp add: xLoop_Reject)
    next
      case (Cont d)
      obtain e s' where fs: "f s (mkMatch canvas sample x0 y d) = (e, s')" by (cases "f s (mkMatch canvas sample x0 y d)")
      note st = step[OF less.prems(1) less.prems(2) True Cont fs]
      show ?thesis
      proof (cases e)
        case None
        with st have "I s'" by simp
        with True Cont fs None less.hyps[OF m, of s'] less.prems show ?thesis
          by (simp add: xLoop_Cont_ok)
      next
        case (Some err)
        with st True Cont fs show ?thesis by (simp add: xLoop_Cont_err)
      qed
    qed
  qed
qed

lemma yLoop_rule:
  assumes step: "\<And>x y d s e s'. I s \<Longrightarrow> 0 \<le> x \<Longrightarrow> x < wcanv canvas sample \<Longrightarrow>
            0 \<le> y \<Longrightarrow> y < hcanv canvas sample \<Longrightarrow>
            window canvas sample tol x y = Cont d \<Longrightarrow> f s (mkMatch canvas sample x y d) = (e, s') \<Longrightarrow>
            (case e of None \<Rightarrow> I s' | Some err \<Rightarrow> Q (Some err) s')"
    and stop: "\<And>s e. I s \<Longrightarrow> e = None \<or> (\<exists>c. e = Some (ContextError c)) \<Longrightarrow> Q e s"
    and "I s" and "0 \<le> y0"
  shows "case yLoop ctx canvas sample tol f y0 s of
           Panicked \<Rightarrow> True
         | Returned e s' \<Rightarrow> Q e s'"
  using assms(3,4)
proof (induction "nat (hcanv canvas sample - y0)" arbitrary: y0 s rule: less_induct)
  case less
  show ?case
  proof (cases "y0 < hcanv canvas sample")
    case False
    with less.prems stop[of s None] show ?thesis by (simp add: yLoop_exit)
  next
    case True
    then have m: "nat (hcanv canvas sample - (y0 + 1)) < nat (hcanv canvas sample - y0)" by simp
    show ?thesis
    proof (cases "ctx y0")
      case (Some err)
      with True stop[of s "Some (ContextError err)"] less.prems show ?thesis
        by (simp add: yLoop_cancel)
    next
      case None
      have xr: "case xLoop canvas sample tol f y0 0 s of
           Inl s' \<Rightarrow> I s'
         | Inr Panicked \<Rightarrow> True
         | Inr (Returned e s') \<Rightarrow> Q e s'"
      proof (rule xLoop_rule[where I = I and Q = Q, OF _ less.prems(1)])
        fix x d s e s'
        assume "I s" "0 \<le> x" "x < wcanv canvas sample" "window canvas sample tol x y0 = Cont d"
          "f s (mkMatch canvas sample x y0 d) = (e, s')"
        then show "case e of None \<Rightarrow> I s' | Some err \<Rightarrow> Q (Some err) s'"
          by (rule step[OF _ _ _ less.prems(2) True])
      qed simp
      show ?thesis
      proof (cases "xLoop canvas sample tol f y0 0 s")
        case (Inl s')
        with xr have "I s'" by simp
        with True None Inl less.hyps[OF m, of s'] less.prems show ?thesis by (simp add: yLoop_next)
      next
        case (Inr r)
        with xr True None show ?thesis by (simp add: yLoop_leave split: outcome.splits)
      qed
    qed
  qed
qed

lemma foreachRGBA_rule:
  assumes step: "\<And>x y d s e s'. I s \<Longrightarrow> 0 \<le> x \<Longrightarrow> x < wcanv canvas sample \<Longrightarrow>
            0 \<le> y \<Longrightarrow> y < hcanv canvas sample \<Longrightarrow>
            window canvas sample tol x y = Cont d \<Longrightarrow> f s (mkMatch canvas sample x y d) = (e, s') \<Longrightarrow>
            (case e of None \<Rightarrow> I s' | Some err \<Rightarrow> Q (Some err) s')"
    and stop: "\<And>s e. I s \<Longrightarrow> e = None \<or> (\<exists>c. e = Some (ContextError c)) \<Longrightarrow> Q e s"
    and "I s"
    and ret: "foreachRGBA ctx canvas sample tol f s = Returned e s'"
  shows "Q e s'"
proof (cases "Dx (Rect canvas) < wsamp sample \<or> Dy (Rect canvas) < hsamp sample
         \<or> wsamp sample = 0 \<or> hsamp sample = 0")
  case True
  with ret have "e = None" "s' = s" by (simp_all add: foreachRGBA_def)
  with stop[OF assms(3), of None] show ?thesis by simp
next
  case False
  with ret have y: "yLoop ctx canvas sample tol f 0 s = Returned e s'" by (simp add: foreachRGBA_def)
  have "case yLoop ctx canvas sample tol f 0 s of Panicked \<Rightarrow> True | Returned e s' \<Rightarrow> Q e s'"
  proof (rule yLoop_rule[where I = I and Q = Q, OF _ _ assms(3)])
    fix x y d s e s'
    assume "I s" "0 \<le> x" "x < wcanv canvas sample" "0 \<le> y" "y < hcanv canvas sample"
      "window canvas sample tol x y = Cont d" "f s (mkMatch canvas sample x y d) = (e, s')"
    then show "case e of None \<Rightarrow> I s' | Some err \<Rightarrow> Q (Some err) s'" by (rule step)
  next
    fix s e assume "I s" "e = None \<or> (\<exists>c. e = Some (ContextError c))"
    then show "Q e s" by (rule stop)
  qed simp
  with y show ?thesis by simp
qed

section \<open>Every match handed to a callback comes from an accepted window\<close>

lemma traced_apply:
  "f s m = (e, s') \<Longrightarrow> traced f (tr, s) m = (e, (tr @ [(m, e)], s'))"
  by (simp add: traced_def)

text \<open>Whatever holds of every accepted window holds of every match a callback is given.\<close>

lemma emitted_traced:
  assumes acc: "\<And>x y d. 0 \<le> x \<Longrightarrow> x < wcanv canvas sample \<Longrightarrow> 0 \<le> y \<Longrightarrow> y < hcanv canvas sample \<Longrightarrow>
            window canvas sample tol x y = Cont d \<Longrightarrow> P (mkMatch canvas sample x y d)"
    and ret: "foreachRGBA ctx canvas sample tol (traced f) (tr, s) = Returned e (tr', s')"
    and init: "\<forall>(m, r) \<in> set tr. P m"
  shows "\<forall>(m, r) \<in> set tr'. P m"
proof -
  let ?I = "\<lambda>st :: (Match \<times> error option) list \<times> 'a. \<forall>(m, r) \<in> set (fst st). P m"
  have "(\<lambda>e. ?I) e (tr', s')"
  proof (rule foreachRGBA_rule[where I = ?I and Q = "\<lambda>e. ?I", OF _ _ _ ret])
    fix x y d st e st'
    assume I: "?I st" and r: "0 \<le> x" "x < wcanv canvas sample" "0 \<le> y" "y < hcanv canvas sample"
      "window canvas sample tol x y = Cont d"
      and t: "traced f st (mkMatch canvas sample x y d) = (e, st')"
    obtain tr0 s0 where st: "st = (tr0, s0)" by (cases st)
    obtain e0 s1 where f: "f s0 (mkMatch canvas sample x y d) = (e0, s1)"
      by (cases "f s0 (mkMatch canvas sample x y d)")
    from t st traced_apply[of f s0 _ e0 s1 tr0, OF f] have "st' = (tr0 @ [(mkMatch canvas sample x y d, e0)], s1)"
      by auto
    with I st acc[OF r] have "?I st'" by auto
    then show "case e of None \<Rightarrow> ?I st' | Some err \<Rightarrow> ?I st'" by (simp split: option.split)
  qed (use init in simp_all)
  then show ?thesis by simp
qed






lemma Foreach_RGBA:
  "Foreach ctx (RGBAImage c) (RGBAImage s) tol f st = foreachRGBA ctx c s tol f st"
  by (simp add: Foreach_def)

lemma Foreach_unsupported:
  "canvas = OtherImage \<or> sample = OtherImage \<Longrightarrow>
   Foreach ctx canvas sample tol f st = Returned (Some ErrUnsupportedImageType) st"
  by (auto simp: Foreach_def split: Image.splits)



section \<open>Observing callbacks; the scan as a row-major enumeration\<close>




text \<open>Observing a callback does not change the scan.\<close>

lemma xLoop_traced:
  "xLoop canvas sample tol f y x st
     = map_sum snd (map_outcome snd) (xLoop canvas sample tol (traced f) y x (tr, st))"
proof (induction "nat (wcanv canvas sample - x)" arbitrary: x tr st rule: less_induct)
  case less
  show ?case
  proof (cases "x < wcanv canvas sample")
    case False
    then show ?thesis by (simp add: xLoop_exit)
  next
    case True
    then have m: "nat (wcanv canvas sample - (x + 1)) < nat (wcanv canvas sample - x)" by simp
    show ?thesis
    proof (cases "window canvas sample tol x y")
      case Crash
      with True show ?thesis by (simp add: xLoop_Crash)
    next
      case Reject
      with True less[OF m, of st tr] show ?thesis by (simp add: xLoop_Reject)
    next
      case (Cont d)
      obtain e st' where f: "f st (mkMatch canvas sample x y d) = (e, st')"
        by (cases "f st (mkMatch canvas sample x y d)")
      note t = traced_apply[of f st _ e st' tr, OF f]
      show ?thesis
      proof (cases e)
        case None
        with True Cont f t less[OF m, of st' "tr @ [(mkMatch canvas sample x y d, None)]"]
        show ?thesis by (simp add: xLoop_Cont_ok)
      next
        case (Some err)
        with True Cont f t show ?thesis by (simp add: xLoop_Cont_err)
      qed
    qed
  qed
qed

lemma yLoop_traced:
  "yLoop ctx canvas sample tol f y st
     = map_outcome snd (yLoop ctx canvas sample tol (traced f) y (tr, st))"
proof (induction "nat (hcanv canvas sample - y)" arbitrary: y tr st rule: less_induct)
  case less
  show ?case
  proof (cases "y < hcanv canvas sample")
    case False
    then show ?thesis by (simp add: yLoop_exit)
  next
    case True
    then have m: "nat (hcanv canvas sample - (y + 1)) < nat (hcanv canvas sample - y)" by simp
    show ?thesis
    proof (cases "ctx y")
      case (Some err)
      with True show ?thesis by (simp add: yLoop_cancel)
    next
      case None
      note x = xLoop_traced[of canvas sample tol f y 0 st tr]
      show ?thesis
      proof (cases "xLoop canvas sample tol (traced f) y 0 (tr, st)")
        case (Inl a)
        obtain tr' st' where a: "a = (tr', st')" by (cases a)
        with Inl x have "xLoop canvas sample tol f y 0 st = Inl st'" by simp
        with True None Inl a less[OF m, of st' tr'] show ?thesis by (simp add: yLoop_next)
      next
        case (Inr r)
        with x have "xLoop canvas sample tol f y 0 st = Inr (map_outcome snd r)" by simp
        with True None Inr show ?thesis by (simp add: yLoop_leave)
      qed
    qed
  qed
qed

lemma foreachRGBA_traced:
  "foreachRGBA ctx canvas sample tol f st
     = map_outcome snd (foreachRGBA ctx canvas sample tol (traced f) (tr, st))"
  using yLoop_traced[of ctx canvas sample tol f 0 st tr] by (simp add: foreachRGBA_def)

lemma Foreach_traced:
  "Foreach ctx canvas sample tol f st
     = map_outcome snd (Foreach ctx canvas sample tol (traced f) (tr, st))"
  using foreachRGBA_traced[of ctx _ _ tol f st tr]
  by (simp add: Foreach_def split: Image.splits)

lemma foldl_keepBetter_snoc: "foldl keepBetter a (ms @ [m]) = keepBetter (foldl keepBetter a ms) m"
  by simp

lemma pickBest_snoc:
  "pickBest (ms @ [m]) = (if ms = [] then m else keepBetter (pickBest ms) m)"
  by (cases ms) simp_all

lemma findCallback_trace:
  assumes ret: "foreachRGBA ctx canvas sample tol (traced (findCallback sel)) ([], (zeroMatch, 0))
                  = Returned e (tr, st)"
  shows "st = (pickBest (map fst tr), int (length tr))
         \<and> (sel \<noteq> Fastest \<longrightarrow> (\<forall>(m, r) \<in> set tr. r = None))"
proof -
  let ?I = "\<lambda>p :: (Match \<times> error option) list \<times> (Match \<times> int).
              snd p = (pickBest (map fst (fst p)), int (length (fst p)))
              \<and> (sel \<noteq> Fastest \<longrightarrow> (\<forall>(m, r) \<in> set (fst p). r = None))"
  have "(\<lambda>e. ?I) e (tr, st)"
  proof (rule foreachRGBA_rule[where I = ?I and Q = "\<lambda>e. ?I", OF _ _ _ ret])
    fix x y d p e p'
    assume I: "?I p" and t: "traced (findCallback sel) p (mkMatch canvas sample x y d) = (e, p')"
    let ?m = "mkMatch canvas sample x y d"
    obtain tr0 best count where p: "p = (tr0, (best, count))" by (cases p) auto
    obtain e0 s1 where f: "findCallback sel (best, count) ?m = (e0, s1)"
      by (cases "findCallback sel (best, count) ?m")
    from t p traced_apply[of "findCallback sel" "(best, count)" _ e0 s1 tr0, OF f]
    have p': "p' = (tr0 @ [(?m, e0)], s1)" by auto
    from I p have bc: "best = pickBest (map fst tr0)" "count = int (length tr0)" by simp_all
    from f have s1: "s1 = (if count = 0 \<or> Similarity ?m > Similarity best then ?m else best, count + 1)"
      and e0: "e0 = (if sel = Fastest then Some ErrBreak else None)"
      by (auto simp: findCallback_def Let_def)
    have "s1 = (pickBest (map fst (tr0 @ [(?m, e0)])), int (length (tr0 @ [(?m, e0)])))"
      using s1 bc by (simp add: pickBest_snoc keepBetter_def)
    with I p p' e0 have "?I p'" by auto
    then show "case e of None \<Rightarrow> ?I p' | Some err \<Rightarrow> ?I p'" by (simp split: option.split)
  qed simp_all
  then show ?thesis by simp
qed

text \<open>On well-formed images no index is out of range.\<close>

lemma pixel_delta_in_range:
  "0 \<le> ic \<Longrightarrow> ic + 2 < int (length pc) \<Longrightarrow> 0 \<le> is \<Longrightarrow> is + 2 < int (length ps) \<Longrightarrow>
   \<exists>d. pixel_delta pc ps ic is = Some d"
  by (simp add: pixel_delta_def pixAt_def)

lemma pixLoop_no_crash:
  "0 \<le> ic \<Longrightarrow> 0 \<le> is \<Longrightarrow> mx = is + pixSize * n \<Longrightarrow> ic + pixSize * n \<le> int (length pc) \<Longrightarrow>
   mx \<le> int (length ps) \<Longrightarrow> pixLoop pc ps pth tth mx ic is diff \<noteq> Crash"
proof (induction pc ps pth tth mx ic "is" diff arbitrary: n rule: pixLoop.induct)
  case (1 pc ps pth tth mx ic "is" diff)
  show ?case
  proof (cases "is < mx")
    case False
    then show ?thesis by (subst pixLoop.simps) simp
  next
    case True
    with "1.prems" have n: "1 \<le> n" by (simp add: pixSize_def)
    with "1.prems" have "ic + 2 < int (length pc)" "is + 2 < int (length ps)"
      by (simp_all add: pixSize_def)
    from pixel_delta_in_range[OF "1.prems"(1) this(1) "1.prems"(2) this(2)]
    obtain delta where dl: "pixel_delta pc ps ic is = Some delta" by blast
    show ?thesis
    proof (cases "delta > pth \<or> diff + delta > tth")
      case True
      with \<open>is < mx\<close> dl show ?thesis by (subst pixLoop.simps) auto
    next
      case False
      then have a: "\<not> delta > pth" and b: "\<not> diff + delta > tth" by simp_all
      have "pixLoop pc ps pth tth mx (ic + pixSize) (is + pixSize) (diff + delta) \<noteq> Crash"
        using "1.prems" n
        by (intro "1.IH"[OF True dl a b, of "n - 1"]) (simp_all add: pixSize_def algebra_simps)
      with True dl a b show ?thesis by (subst pixLoop.simps) simp
    qed
  qed
qed

lemma matchLoop_no_crash:
  "0 < ss \<Longrightarrow> 0 \<le> sc \<Longrightarrow> 0 \<le> base \<Longrightarrow>
   base + (hs - 1) * sc + pixSize * ws \<le> int (length pc) \<Longrightarrow>
   (hs - 1) * ss + pixSize * ws \<le> int (length ps) \<Longrightarrow>
   mx = ss * hs \<Longrightarrow> rs = k * ss \<Longrightarrow> rc = base + k * sc \<Longrightarrow> 0 \<le> k \<Longrightarrow>
   matchLoop pc ps pth tth sc ss ws mx rc rs diff \<noteq> Crash"
proof (induction pc ps pth tth sc ss ws mx rc rs diff arbitrary: k rule: matchLoop.induct)
  case (1 pc ps pth tth sc ss ws mx rc rs diff)
  note pos = "1.prems"(1) and a = "1.prems"(2-5) and b = "1.prems"(6-9)
  show ?case
  proof (cases "rs < mx")
    case False
    then show ?thesis by (simp add: matchLoop_exit)
  next
    case True
    with b have "k * ss < hs * ss" by (simp add: mult.commute)
    with pos have "k < hs" by (simp add: mult_less_cancel_right)
    then have k: "k \<le> hs - 1" by simp
    have ksc: "k * sc \<le> (hs - 1) * sc" using k a(1) by (rule mult_right_mono)
    have kss: "k * ss \<le> (hs - 1) * ss" using k pos by (intro mult_right_mono) simp_all
    have rc0: "0 \<le> rc" using b a(1,2) by simp
    have rs0: "0 \<le> rs" using b pos by simp
    have p: "pixLoop pc ps pth tth (rs + pixSize * ws) rc rs diff \<noteq> Crash"
    proof (rule pixLoop_no_crash[OF rc0 rs0 refl])
      show "rc + pixSize * ws \<le> int (length pc)" using b(3) ksc a(3) by linarith
      show "rs + pixSize * ws \<le> int (length ps)" using b(2) kss a(4) by linarith
    qed
    show ?thesis
    proof (cases "pixLoop pc ps pth tth (rs + pixSize * ws) rc rs diff")
      case Reject
      with True show ?thesis by (subst matchLoop.simps) simp
    next
      case Crash
      with p show ?thesis by simp
    next
      case (Cont diff')
      have "matchLoop pc ps pth tth sc ss ws mx (rc + sc) (rs + ss) diff' \<noteq> Crash"
        using a b pos
        by (intro "1.IH"[OF True Cont pos, of "k + 1"]) (simp_all add: algebra_simps)
      with True Cont pos show ?thesis by (subst matchLoop.simps) simp
    qed
  qed
qed

lemma window_no_crash:
  assumes wc: "wellFormed canvas" and ws: "wellFormed sample"
    and nz: "wsamp sample \<noteq> 0" "hsamp sample \<noteq> 0"
    and x: "0 \<le> x" "x < wcanv canvas sample" and y: "0 \<le> y" "y < hcanv canvas sample"
  shows "window canvas sample tol x y \<noteq> Crash"
proof -
  let ?W = "Dx (Rect canvas)" and ?H = "Dy (Rect canvas)"
  let ?w = "Dx (Rect sample)" and ?h = "Dy (Rect sample)"
  from ws nz have w: "0 < ?w" and h: "0 < ?h" by (simp_all add: wellFormed_def wsamp_def hsamp_def)
  from x y have xw: "x + ?w \<le> ?W" and yh: "y + ?h \<le> ?H"
    by (simp_all add: wcanv_def hcanv_def wsamp_def hsamp_def)
  with w h x y have W: "0 < ?W" and H: "0 < ?H" by linarith+
  from wc W H have sc: "pixSize * ?W \<le> Stride canvas"
    and lc: "(?H - 1) * Stride canvas + pixSize * ?W \<le> int (length (Pix canvas))"
    by (simp_all add: wellFormed_def)
  from ws w h have ls: "(?h - 1) * Stride sample + pixSize * ?w \<le> int (length (Pix sample))"
    and ss: "pixSize * ?w \<le> Stride sample"
    by (simp_all add: wellFormed_def)
  from ss w have ss0: "0 < Stride sample" by (simp add: pixSize_def)
  from sc W have sc0: "0 \<le> Stride canvas" by (simp add: pixSize_def)
  have base0: "0 \<le> y * Stride canvas + x * pixSize" using x y sc0 by (simp add: pixSize_def)
  have "(y + ?h - 1) * Stride canvas \<le> (?H - 1) * Stride canvas"
    using yh sc0 by (intro mult_right_mono) simp_all
  then have cb: "y * Stride canvas + x * pixSize + (?h - 1) * Stride canvas + pixSize * ?w
                  \<le> int (length (Pix canvas))"
    using lc xw by (simp add: pixSize_def algebra_simps)
  show ?thesis
    unfolding window_def Let_def
    by (rule matchLoop_no_crash[where k = 0 and hs = "hsamp sample"
              and base = "y * Stride canvas + x * pixSize", OF ss0 sc0 base0])
       (use cb ls in \<open>simp_all add: wsamp_def hsamp_def\<close>)
qed

text \<open>The scan hands the accepted windows to the callback in row-major order.\<close>

lemma feed_append:
  "feed f (as @ bs) s = (case feed f as s of (Some err, s') \<Rightarrow> (Some err, s') | (None, s') \<Rightarrow> feed f bs s')"
  by (induction as arbitrary: s) (auto split: prod.splits option.splits)

lemma feed_allCallback: "feed allCallback ms mm = (None, mm @ ms)"
  by (induction ms arbitrary: mm) (simp_all add: allCallback_def)

lemma xLoop_feed:
  assumes nc: "\<And>x'. x \<le> x' \<Longrightarrow> x' < wcanv canvas sample \<Longrightarrow> window canvas sample tol x' y \<noteq> Crash"
  shows "xLoop canvas sample tol f y x s
           = (case feed f (concat (map (originMatch canvas sample tol y) [x .. wcanv canvas sample - 1])) s of
                (None, s') \<Rightarrow> Inl s'
              | (Some err, s') \<Rightarrow> Inr (Returned (Some err) s'))"
  using nc
proof (induction "nat (wcanv canvas sample - x)" arbitrary: x s rule: less_induct)
  case less
  show ?case
  proof (cases "x < wcanv canvas sample")
    case False
    then show ?thesis by (simp add: xLoop_exit)
  next
    case True
    then have m: "nat (wcanv canvas sample - (x + 1)) < nat (wcanv canvas sample - x)" by simp
    from True have u: "[x .. wcanv canvas sample - 1] = x # [x + 1 .. wcanv canvas sample - 1]"
      by (simp add: upto_rec1)
    have ih: "xLoop canvas sample tol f y (x + 1) s'
           = (case feed f (concat (map (originMatch canvas sample tol y) [x + 1 .. wcanv canvas sample - 1])) s' of
                (None, s') \<Rightarrow> Inl s'
              | (Some err, s') \<Rightarrow> Inr (Returned (Some err) s'))" for s'
      by (rule less.hyps[OF m]) (rule less.prems, simp_all)
    show ?thesis
    proof (cases "window canvas sample tol x y")
      case Crash
      with less.prems[of x] True show ?thesis by simp
    next
      case Reject
      with True ih[of s] show ?thesis by (simp add: xLoop_Reject u originMatch_def)
    next
      case (Cont d)
      obtain e s' where fs: "f s (mkMatch canvas sample x y d) = (e, s')"
        by (cases "f s (mkMatch canvas sample x y d)")
      show ?thesis
      proof (cases e)
        case None
        with True Cont fs ih[of s'] show ?thesis by (simp add: xLoop_Cont_ok u originMatch_def)
      next
        case (Some err)
        with True Cont fs show ?thesis by (simp add: xLoop_Cont_err u originMatch_def)
      qed
    qed
  qed
qed

lemma yLoop_feed:
  assumes nc: "\<And>x' y'. 0 \<le> x' \<Longrightarrow> x' < wcanv canvas sample \<Longrightarrow> y \<le> y' \<Longrightarrow> y' < hcanv canvas sample \<Longrightarrow>
                 window canvas sample tol x' y' \<noteq> Crash"
  shows "yLoop background canvas sample tol f y s
           = (case feed f (concat (map (rowMatches canvas sample tol) [y .. hcanv canvas sample - 1])) s of
                (e, s') \<Rightarrow> Returned e s')"
  using nc
proof (induction "nat (hcanv canvas sample - y)" arbitrary: y s rule: less_induct)
  case less
  show ?case
  proof (cases "y < hcanv canvas sample")
    case False
    then show ?thesis by (simp add: yLoop_exit)
  next
    case True
    then have m: "nat (hcanv canvas sample - (y + 1)) < nat (hcanv canvas sample - y)" by simp
    from True have u: "[y .. hcanv canvas sample - 1] = y # [y + 1 .. hcanv canvas sample - 1]"
      by (simp add: upto_rec1)
    have bg: "background y = None" by (simp add: background_def)
    have ih: "yLoop background canvas sample tol f (y + 1) s'
           = (case feed f (concat (map (rowMatches canvas sample tol) [y + 1 .. hcanv canvas sample - 1])) s' of
                (e, s') \<Rightarrow> Returned e s')" for s'
      by (rule less.hyps[OF m]) (rule less.prems, simp_all)
    have row: "rowMatches canvas sample tol y
                 = concat (map (originMatch canvas sample tol y) [0 .. wcanv canvas sample - 1])"
      by (simp add: rowMatches_def wcanv_def wsamp_def)
    have xl: "xLoop canvas sample tol f y 0 s
           = (case feed f (rowMatches canvas sample tol y) s of
                (None, s') \<Rightarrow> Inl s'
              | (Some err, s') \<Rightarrow> Inr (Returned (Some err) s'))"
      unfolding row by (rule xLoop_feed) (rule less.prems, simp_all add: True)
    obtain e s' where fr: "feed f (rowMatches canvas sample tol y) s = (e, s')"
      by (cases "feed f (rowMatches canvas sample tol y) s")
    show ?thesis
    proof (cases e)
      case None
      with xl fr have "xLoop canvas sample tol f y 0 s = Inl s'" by simp
      with True bg ih[of s'] fr None show ?thesis by (simp add: yLoop_next u feed_append)
    next
      case (Some err)
      with xl fr have "xLoop canvas sample tol f y 0 s = Inr (Returned (Some err) s')" by simp
      with True bg fr Some show ?thesis by (simp add: yLoop_leave u feed_append)
    qed
  qed
qed

lemma concat_map_Nil: "(\<And>x. x \<in> set xs \<Longrightarrow> g x = []) \<Longrightarrow> concat (map g xs) = []"
  by (induction xs) simp_all

lemma rowMajorMatches_guard:
  assumes "Dx (Rect canvas) < wsamp sample \<or> Dy (Rect canvas) < hsamp sample
           \<or> wsamp sample = 0 \<or> hsamp sample = 0"
  shows "rowMajorMatches canvas sample tol = []"
proof (cases "Dx (Rect sample) = 0 \<or> Dy (Rect sample) = 0")
  case True
  then show ?thesis by (simp add: rowMajorMatches_def)
next
  case False
  with assms have "Dx (Rect canvas) < Dx (Rect sample) \<or> Dy (Rect canvas) < Dy (Rect sample)"
    by (simp add: wsamp_def hsamp_def)
  then show ?thesis
  proof
    assume "Dx (Rect canvas) < Dx (Rect sample)"
    then have "rowMatches canvas sample tol y = []" for y by (simp add: rowMatches_def)
    then show ?thesis by (simp add: rowMajorMatches_def concat_map_Nil)
  next
    assume "Dy (Rect canvas) < Dy (Rect sample)"
    then show ?thesis by (simp add: rowMajorMatches_def)
  qed
qed

lemma scan_feed:
  assumes "wellFormed canvas" "wellFormed sample"
  shows "foreachRGBA background canvas sample tol f s
           = (case feed f (rowMajorMatches canvas sample tol) s of (e, s') \<Rightarrow> Returned e s')"
proof (cases "Dx (Rect canvas) < wsamp sample \<or> Dy (Rect canvas) < hsamp sample
         \<or> wsamp sample = 0 \<or> hsamp sample = 0")
  case True
  then show ?thesis by (simp add: foreachRGBA_def rowMajorMatches_guard)
next
  case False
  then have nz: "wsamp sample \<noteq> 0" "hsamp sample \<noteq> 0" by simp_all
  have "foreachRGBA background canvas sample tol f s = yLoop background canvas sample tol f 0 s"
    using False by (simp add: foreachRGBA_def)
  also have "\<dots> = (case feed f (concat (map (rowMatches canvas sample tol) [0 .. hcanv canvas sample - 1])) s of
                (e, s') \<Rightarrow> Returned e s')"
    by (rule yLoop_feed) (rule window_no_crash[OF assms nz])
  also have "concat (map (rowMatches canvas sample tol) [0 .. hcanv canvas sample - 1])
               = rowMajorMatches canvas sample tol"
    using nz by (simp add: rowMajorMatches_def hcanv_def hsamp_def wsamp_def)
  finally show ?thesis .
qed

lemma sorted_wrt_concat_upto:
  assumes "\<And>a. i \<le> a \<Longrightarrow> a \<le> j \<Longrightarrow> sorted_wrt R (g a)"
    and "\<And>a b u v. i \<le> a \<Longrightarrow> a < b \<Longrightarrow> b \<le> j \<Longrightarrow> u \<in> set (g a) \<Longrightarrow> v \<in> set (g b) \<Longrightarrow> R u v"
  shows "sorted_wrt R (concat (map g [i .. j]))"
  using assms
proof (induction "nat (j - i + 1)" arbitrary: i rule: less_induct)
  case less
  show ?case
  proof (cases "i \<le> j")
    case False
    then show ?thesis by simp
  next
    case True
    then have u: "[i .. j] = i # [i + 1 .. j]" by (simp add: upto_rec1)
    from True have m: "nat (j - (i + 1) + 1) < nat (j - i + 1)" by simp
    have tl: "sorted_wrt R (concat (map g [i + 1 .. j]))"
    proof (rule less.hyps[OF m])
      fix a assume "i + 1 \<le> a" "a \<le> j"
      then show "sorted_wrt R (g a)" by (intro less.prems(1)) simp_all
    next
      fix a b u v assume "i + 1 \<le> a" "a < b" "b \<le> j" "u \<in> set (g a)" "v \<in> set (g b)"
      then show "R u v" by (intro less.prems(2)[of a b]) simp_all
    qed
    have hd: "sorted_wrt R (g i)" using True by (intro less.prems(1)) simp_all
    have cross: "\<forall>u \<in> set (g i). \<forall>v \<in> set (concat (map g [i + 1 .. j])). R u v"
    proof (intro ballI)
      fix u v assume u: "u \<in> set (g i)" and "v \<in> set (concat (map g [i + 1 .. j]))"
      then obtain b where b: "i + 1 \<le> b" "b \<le> j" "v \<in> set (g b)" by auto
      show "R u v" by (rule less.prems(2)[of i b]) (use u b in simp_all)
    qed
    from hd tl cross show ?thesis by (simp add: u sorted_wrt_append)
  qed
qed

lemma originMatch_mem:
  "m \<in> set (originMatch canvas sample tol y x) \<longleftrightarrow>
     (\<exists>d. window canvas sample tol x y = Cont d \<and> m = mkMatch canvas sample x y d)"
  by (cases "window canvas sample tol x y") (simp_all add: originMatch_def)

lemma mkMatch_origin:
  "X (MinPt (MRect (mkMatch canvas sample x y d))) = X (MinPt (Rect canvas)) + x"
  "Y (MinPt (MRect (mkMatch canvas sample x y d))) = Y (MinPt (Rect canvas)) + y"
  by (simp_all add: mkMatch_def Let_def Add_def)

lemma rowMatches_mem:
  "m \<in> set (rowMatches canvas sample tol y) \<longleftrightarrow>
     (\<exists>x d. 0 \<le> x \<and> x \<le> Dx (Rect canvas) - Dx (Rect sample)
            \<and> window canvas sample tol x y = Cont d \<and> m = mkMatch canvas sample x y d)"
proof
  assume "m \<in> set (rowMatches canvas sample tol y)"
  then obtain x where "x \<in> set [0 .. Dx (Rect canvas) - Dx (Rect sample)]"
    "m \<in> set (originMatch canvas sample tol y x)"
    unfolding rowMatches_def by auto
  then show "\<exists>x d. 0 \<le> x \<and> x \<le> Dx (Rect canvas) - Dx (Rect sample)
            \<and> window canvas sample tol x y = Cont d \<and> m = mkMatch canvas sample x y d"
    unfolding originMatch_mem by auto
next
  assume "\<exists>x d. 0 \<le> x \<and> x \<le> Dx (Rect canvas) - Dx (Rect sample)
            \<and> window canvas sample tol x y = Cont d \<and> m = mkMatch canvas sample x y d"
  then obtain x d where "x \<in> set [0 .. Dx (Rect canvas) - Dx (Rect sample)]"
    "window canvas sample tol x y = Cont d \<and> m = mkMatch canvas sample x y d" by auto
  then have "x \<in> set [0 .. Dx (Rect canvas) - Dx (Rect sample)]"
    "m \<in> set (originMatch canvas sample tol y x)"
    unfolding originMatch_mem by blast+
  then show "m \<in> set (rowMatches canvas sample tol y)"
    unfolding rowMatches_def set_concat set_map by blast
qed

lemma rowMajorMatches_mem:
  "m \<in> set (rowMajorMatches canvas sample tol) \<longleftrightarrow>
     Dx (Rect sample) \<noteq> 0 \<and> Dy (Rect sample) \<noteq> 0
     \<and> (\<exists>x y d. 0 \<le> x \<and> x \<le> Dx (Rect canvas) - Dx (Rect sample)
              \<and> 0 \<le> y \<and> y \<le> Dy (Rect canvas) - Dy (Rect sample)
              \<and> window canvas sample tol x y = Cont d \<and> m = mkMatch canvas sample x y d)"
proof (cases "Dx (Rect sample) = 0 \<or> Dy (Rect sample) = 0")
  case True
  then show ?thesis by (auto simp: rowMajorMatches_def)
next
  case False
  then have "m \<in> set (rowMajorMatches canvas sample tol) \<longleftrightarrow>
     (\<exists>y \<in> set [0 .. Dy (Rect canvas) - Dy (Rect sample)]. m \<in> set (rowMatches canvas sample tol y))"
    by (simp add: rowMajorMatches_def)
  also have "\<dots> \<longleftrightarrow> (\<exists>x y d. 0 \<le> x \<and> x \<le> Dx (Rect canvas) - Dx (Rect sample)
              \<and> 0 \<le> y \<and> y \<le> Dy (Rect canvas) - Dy (Rect sample)
              \<and> window canvas sample tol x y = Cont d \<and> m = mkMatch canvas sample x y d)"
    unfolding rowMatches_mem set_upto Bex_def atLeastAtMost_iff by blast
  finally show ?thesis using False by simp
qed

lemma rowMatches_sorted: "sorted_wrt originBefore (rowMatches canvas sample tol y)"
  unfolding rowMatches_def
proof (rule sorted_wrt_concat_upto)
  fix a show "sorted_wrt originBefore (originMatch canvas sample tol y a)"
    by (simp add: originMatch_def split: cmp.splits)
next
  fix a b :: int and u v
  assume "a < b" "u \<in> set (originMatch canvas sample tol y a)" "v \<in> set (originMatch canvas sample tol y b)"
  then show "originBefore u v"
    by (auto simp: originMatch_mem originBefore_def mkMatch_origin)
qed

lemma rowMajorMatches_sorted: "sorted_wrt originBefore (rowMajorMatches canvas sample tol)"
proof (cases "Dx (Rect sample) = 0 \<or> Dy (Rect sample) = 0")
  case True
  then show ?thesis by (simp add: rowMajorMatches_def)
next
  case False
  have "sorted_wrt originBefore
          (concat (map (rowMatches canvas sample tol) [0 .. Dy (Rect canvas) - Dy (Rect sample)]))"
  proof (rule sorted_wrt_concat_upto)
    fix a show "sorted_wrt originBefore (rowMatches canvas sample tol a)" by (rule rowMatches_sorted)
  next
    fix a b :: int and u v
    assume "a < b" "u \<in> set (rowMatches canvas sample tol a)" "v \<in> set (rowMatches canvas sample tol b)"
    then show "originBefore u v"
      by (auto simp: rowMatches_mem originBefore_def mkMatch_origin)
  qed
  with False show ?thesis by (simp add: rowMajorMatches_def)
qed

section \<open>The claims\<close>

text \<open>
  C1: the scan does not take the window threshold and the denominator of the
  similarity from the size of the sample.  \<open>maxTotalDiff\<close> is computed from \<open>wcanv\<close>
  and \<open>hcanv\<close> after lines 18 and 19 have turned them into the numbers of window
  origins.  For a sample of one pixel on a canvas of two pixels at tolerance 1/2
  the denominator is 1530 and the threshold 765, where the sample gives 765 and
  383: the yellow pixel, whose difference from the black sample is 400, is
  accepted, with similarity \<open>1 - 400 / 1530\<close>.
\<close>

theorem C1_threshold_from_origin_count:
  "maxTotalDiff yellowBlack black1 = 1530 \<and> specMaxTotalDiff black1 = 765
   \<and> totalDiffThreshold yellowBlack black1 (1 / 2) = 765 \<and> specWindowThreshold black1 (1 / 2) = 383
   \<and> window yellowBlack black1 (1 / 2) 0 0 = Cont 400
   \<and> \<not> 400 \<le> specWindowThreshold black1 (1 / 2)
   \<and> foreachRGBA background yellowBlack black1 (1 / 2) allCallback []
       = Returned None [\<lparr>MRect = rect 0 0 1 1, Similarity = 1 - 400 / 1530\<rparr>,
                        \<lparr>MRect = rect 1 0 2 1, Similarity = 1\<rparr>]
   \<and> (1 - 400 / 1530 :: rat) \<noteq> 1 - 400 / of_int (specMaxTotalDiff black1)"
  by code_simp

text \<open>
  C2: a match can have a similarity below \<open>1 - tolerance\<close>, because the window
  threshold is rounded half up.  On a canvas of one pixel that differs from the
  sample by 1, at tolerance 1/1024, the threshold is \<open>int64(765 / 1024 + 0.5) = 1\<close>:
  the window is accepted and handed to the callback with similarity 764/765,
  which is less than 1023/1024.
\<close>

theorem C2_similarity_below_bound:
  "totalDiffThreshold dark1 black1 (1 / 1024) = 1
   \<and> foreachRGBA background dark1 black1 (1 / 1024) (traced allCallback) ([], [])
       = Returned None ([(\<lparr>MRect = rect 0 0 1 1, Similarity = 764 / 765\<rparr>, None)],
                        [\<lparr>MRect = rect 0 0 1 1, Similarity = 764 / 765\<rparr>])
   \<and> Similarity \<lparr>MRect = rect 0 0 1 1, Similarity = 764 / 765\<rparr> < 1 - 1 / 1024"
  by code_simp




text \<open>
  C4: in the modes \<open>Best\<close> and \<open>Only\<close> the callback of \<open>Find\<close> never asks the scan to
  stop (it returns nil for every match), and it holds the first match, replaced
  only by a later match of strictly greater similarity.  When the scan has
  completed, \<open>Find\<close> returns \<open>ErrNotFound\<close> if no match was seen, \<open>ErrMultipleFound\<close>
  together with the best match in mode \<open>Only\<close> if more than one was seen, and else
  the best match with no error.
\<close>

theorem C4_find_best_and_only:
  assumes sel: "selection = Best \<or> selection = Only"
    and ret: "Foreach ctx canvas sample tolerance (traced (findCallback selection)) ([], (zeroMatch, 0))
                = Returned e (tr, st)"
  shows "(\<forall>(m, r) \<in> set tr. r = None)
         \<and> st = (pickBest (map fst tr), int (length tr))
         \<and> (e = None \<longrightarrow>
              Find ctx canvas sample tolerance selection
                = Returned (if tr = [] then Some ErrNotFound
                            else if selection = Only \<and> 1 < length tr then Some ErrMultipleFound
                            else None)
                           (pickBest (map fst tr)))"
proof -
  have inv: "st = (pickBest (map fst tr), int (length tr)) \<and> (\<forall>(m, r) \<in> set tr. r = None)"
  proof (cases "canvas = OtherImage \<or> sample = OtherImage")
    case True
    from Foreach_unsupported[OF this, of ctx tolerance "traced (findCallback selection)" "([], (zeroMatch, 0))"]
      ret show ?thesis by simp
  next
    case False
    then obtain c smp where "canvas = RGBAImage c" "sample = RGBAImage smp"
      by (cases canvas; cases sample) auto
    with ret have "foreachRGBA ctx c smp tolerance (traced (findCallback selection)) ([], (zeroMatch, 0))
                = Returned e (tr, st)"
      by (simp add: Foreach_RGBA)
    from findCallback_trace[OF this] sel show ?thesis by auto
  qed
  from Foreach_traced[of ctx canvas sample tolerance "findCallback selection" "(zeroMatch, 0)" "[]"] ret
  have fe: "Foreach ctx canvas sample tolerance (findCallback selection) (zeroMatch, 0) = Returned e st"
    by simp
  have "e = None \<longrightarrow>
              Find ctx canvas sample tolerance selection
                = Returned (if tr = [] then Some ErrNotFound
                            else if selection = Only \<and> 1 < length tr then Some ErrMultipleFound
                            else None)
                           (pickBest (map fst tr))"
    using fe inv by (auto simp: Find_def Let_def)
  with inv show ?thesis by blast
qed

theorem C4_witness:
  "(Only = Best \<or> Only = Only)
   \<and> Foreach background (RGBAImage yellowBlack) (RGBAImage black1) (1 / 2)
        (traced (findCallback Only)) ([], (zeroMatch, 0))
      = Returned None
          ([(\<lparr>MRect = rect 0 0 1 1, Similarity = 113 / 153\<rparr>, None),
            (\<lparr>MRect = rect 1 0 2 1, Similarity = 1\<rparr>, None)],
           (\<lparr>MRect = rect 1 0 2 1, Similarity = 1\<rparr>, 2))
   \<and> Find background (RGBAImage yellowBlack) (RGBAImage black1) (1 / 2) Only
      = Returned (Some ErrMultipleFound) \<lparr>MRect = rect 1 0 2 1, Similarity = 1\<rparr>"
proof -
  have s: "Only = Best \<or> Only = Only" by simp
  have a: "Foreach background (RGBAImage yellowBlack) (RGBAImage black1) (1 / 2)
        (traced (findCallback Only)) ([], (zeroMatch, 0))
      = Returned None
          ([(\<lparr>MRect = rect 0 0 1 1, Similarity = 113 / 153\<rparr>, None),
            (\<lparr>MRect = rect 1 0 2 1, Similarity = 1\<rparr>, None)],
           (\<lparr>MRect = rect 1 0 2 1, Similarity = 1\<rparr>, 2))"
    by code_simp
  from C4_find_best_and_only [OF s a]
  have "Find background (RGBAImage yellowBlack) (RGBAImage black1) (1 / 2) Only
      = Returned (Some ErrMultipleFound) \<lparr>MRect = rect 1 0 2 1, Similarity = 1\<rparr>"
    by (simp add: keepBetter_def)
  with s a show ?thesis by blast
qed

text \<open>
  C5: on well-formed images, with a context that is never cancelled, a scan at a
  tolerance \<open>t1\<close> and a scan at a tolerance \<open>t2\<close> not below \<open>t1\<close> both return, and every
  rectangle matched at \<open>t1\<close> is matched at \<open>t2\<close>.
\<close>

theorem C5_tolerance_monotone:
  assumes wf: "wellFormed canvas" "wellFormed sample" and le: "t1 \<le> t2"
  shows "\<exists>ms1 ms2. foreachRGBA background canvas sample t1 allCallback [] = Returned None ms1
                 \<and> foreachRGBA background canvas sample t2 allCallback [] = Returned None ms2
                 \<and> MRect ` set ms1 \<subseteq> MRect ` set ms2"
proof -
  have r: "foreachRGBA background canvas sample t allCallback [] = Returned None (rowMajorMatches canvas sample t)" for t
    by (simp add: scan_feed[OF wf] feed_allCallback)
  have "set (rowMajorMatches canvas sample t1) \<subseteq> set (rowMajorMatches canvas sample t2)"
  proof
    fix m assume "m \<in> set (rowMajorMatches canvas sample t1)"
    then obtain x y d where nz: "Dx (Rect sample) \<noteq> 0" "Dy (Rect sample) \<noteq> 0"
      and x: "0 \<le> x" "x \<le> Dx (Rect canvas) - Dx (Rect sample)"
      and y: "0 \<le> y" "y \<le> Dy (Rect canvas) - Dy (Rect sample)"
      and w: "window canvas sample t1 x y = Cont d" and m: "m = mkMatch canvas sample x y d"
      by (auto simp: rowMajorMatches_mem)
    from x y have "0 < wcanv canvas sample" "0 < hcanv canvas sample"
      by (simp_all add: wcanv_def hcanv_def wsamp_def hsamp_def)
    then have "0 \<le> maxTotalDiff canvas sample" using maxTotalDiff_pos by (simp add: less_imp_le)
    from window_mono[OF w le this] nz x y m
    show "m \<in> set (rowMajorMatches canvas sample t2)" by (auto simp: rowMajorMatches_mem)
  qed
  then have "MRect ` set (rowMajorMatches canvas sample t1) \<subseteq> MRect ` set (rowMajorMatches canvas sample t2)"
    by (rule image_mono)
  with r[of t1] r[of t2] show ?thesis by blast
qed

theorem C5_witness:
  "wellFormed board \<and> wellFormed black1 \<and> (0 :: rat) \<le> 1 / 256
   \<and> foreachRGBA background board black1 0 allCallback []
       = Returned None
         [\<lparr>MRect = rect 10 20 11 21, Similarity = 1\<rparr>,
          \<lparr>MRect = rect 12 20 13 21, Similarity = 1\<rparr>,
          \<lparr>MRect = rect 10 21 11 22, Similarity = 1\<rparr>,
          \<lparr>MRect = rect 11 21 12 22, Similarity = 1\<rparr>]
   \<and> foreachRGBA background board black1 (1 / 256) allCallback []
       = Returned None
         [\<lparr>MRect = rect 10 20 11 21, Similarity = 1\<rparr>,
          \<lparr>MRect = rect 11 20 12 21, Similarity = 2294 / 2295\<rparr>,
          \<lparr>MRect = rect 12 20 13 21, Similarity = 1\<rparr>,
          \<lparr>MRect = rect 10 21 11 22, Similarity = 1\<rparr>,
          \<lparr>MRect = rect 11 21 12 22, Similarity = 1\<rparr>]
   \<and> {rect 10 20 11 21, rect 12 20 13 21, rect 10 21 11 22, rect 11 21 12 22}
       \<subseteq> {rect 10 20 11 21, rect 11 20 12 21, rect 12 20 13 21, rect 10 21 11 22, rect 11 21 12 22}"
proof -
  have w: "wellFormed board" "wellFormed black1"
    by (simp_all add: wellFormed_def board_def black1_def rect_def Dx_def Dy_def pixSize_def)
  have l: "(0 :: rat) \<le> 1 / 256" by simp
  have a: "foreachRGBA background board black1 0 allCallback []
       = Returned None
         [\<lparr>MRect = rect 10 20 11 21, Similarity = 1\<rparr>,
          \<lparr>MRect = rect 12 20 13 21, Similarity = 1\<rparr>,
          \<lparr>MRect = rect 10 21 11 22, Similarity = 1\<rparr>,
          \<lparr>MRect = rect 11 21 12 22, Similarity = 1\<rparr>]"
    by code_simp
  have b: "foreachRGBA background board black1 (1 / 256) allCallback []
       = Returned None
         [\<lparr>MRect = rect 10 20 11 21, Similarity = 1\<rparr>,
          \<lparr>MRect = rect 11 20 12 21, Similarity = 2294 / 2295\<rparr>,
          \<lparr>MRect = rect 12 20 13 21, Similarity = 1\<rparr>,
          \<lparr>MRect = rect 10 21 11 22, Similarity = 1\<rparr>,
          \<lparr>MRect = rect 11 21 12 22, Similarity = 1\<rparr>]"
    by code_simp
  from C5_tolerance_monotone [OF w l]
  have "{rect 10 20 11 21, rect 12 20 13 21, rect 10 21 11 22, rect 11 21 12 22}
       \<subseteq> {rect 10 20 11 21, rect 11 20 12 21, rect 12 20 13 21, rect 10 21 11 22, rect 11 21 12 22}"
    unfolding a b by (elim exE conjE) (simp only: outcome.inject, auto)
  with w l a b show ?thesis by blast
qed



text \<open>
  C7: on well-formed images and with a context that is never cancelled, the scan
  hands to the callback the accepted windows of the row-major enumeration
  (\<open>y\<close> from 0 to the canvas height minus the sample height, \<open>x\<close> from 0 to the canvas
  width minus the sample width, both inclusive), one after the other, and at the
  first non-nil value the callback returns it stops and returns that value; the
  matches of the enumeration are in ascending order of \<open>(y, x)\<close>.
\<close>

theorem C7_row_major_scan:
  assumes "wellFormed canvas" "wellFormed sample"
  shows "foreachRGBA background canvas sample tolerance f s
           = (case feed f (rowMajorMatches canvas sample tolerance) s of (e, s') \<Rightarrow> Returned e s')
         \<and> sorted_wrt originBefore (rowMajorMatches canvas sample tolerance)"
proof
  show "foreachRGBA background canvas sample tolerance f s
           = (case feed f (rowMajorMatches canvas sample tolerance) s of (e, s') \<Rightarrow> Returned e s')"
    using assms by (rule scan_feed)
  show "sorted_wrt originBefore (rowMajorMatches canvas sample tolerance)"
    by (rule rowMajorMatches_sorted)
qed

theorem C7_witness:
  "wellFormed board \<and> wellFormed black1
   \<and> rowMajorMatches board black1 (1 / 256)
       = [\<lparr>MRect = rect 10 20 11 21, Similarity = 1\<rparr>,
          \<lparr>MRect = rect 11 20 12 21, Similarity = 2294 / 2295\<rparr>,
          \<lparr>MRect = rect 12 20 13 21, Similarity = 1\<rparr>,
          \<lparr>MRect = rect 10 21 11 22, Similarity = 1\<rparr>,
          \<lparr>MRect = rect 11 21 12 22, Similarity = 1\<rparr>]
   \<and> foreachRGBA background board black1 (1 / 256) stopAtFirst 0 = Returned (Some ErrBreak) 1
   \<and> foreachRGBA background board black1 (1 / 256) allCallback []
       = Returned None
         [\<lparr>MRect = rect 10 20 11 21, Similarity = 1\<rparr>,
          \<lparr>MRect = rect 11 20 12 21, Similarity = 2294 / 2295\<rparr>,
          \<lparr>MRect = rect 12 20 13 21, Similarity = 1\<rparr>,
          \<lparr>MRect = rect 10 21 11 22, Similarity = 1\<rparr>,
          \<lparr>MRect = rect 11 21 12 22, Similarity = 1\<rparr>]"
proof -
  have w: "wellFormed board" "wellFormed black1"
    by (simp_all add: wellFormed_def board_def black1_def rect_def Dx_def Dy_def pixSize_def)
  have r: "rowMajorMatches board black1 (1 / 256)
       = [\<lparr>MRect = rect 10 20 11 21, Similarity = 1\<rparr>,
          \<lparr>MRect = rect 11 20 12 21, Similarity = 2294 / 2295\<rparr>,
          \<lparr>MRect = rect 12 20 13 21, Similarity = 1\<rparr>,
          \<lparr>MRect = rect 10 21 11 22, Similarity = 1\<rparr>,
          \<lparr>MRect = rect 11 21 12 22, Similarity = 1\<rparr>]"
    by code_simp
  from C7_row_major_scan [OF w, of "1 / 256" stopAtFirst 0]
  have a: "foreachRGBA background board black1 (1 / 256) stopAtFirst 0 = Returned (Some ErrBreak) 1"
    by (simp add: r stopAtFirst_def)
  from C7_row_major_scan [OF w, of "1 / 256" allCallback "[]"]
  have b: "foreachRGBA background board black1 (1 / 256) allCallback []
       = Returned None
         [\<lparr>MRect = rect 10 20 11 21, Similarity = 1\<rparr>,
          \<lparr>MRect = rect 11 20 12 21, Similarity = 2294 / 2295\<rparr>,
          \<lparr>MRect = rect 12 20 13 21, Similarity = 1\<rparr>,
          \<lparr>MRect = rect 10 21 11 22, Similarity = 1\<rparr>,
          \<lparr>MRect = rect 11 21 12 22, Similarity = 1\<rparr>]"
    by (simp add: r allCallback_def)
  from w r a b show ?thesis by blast
qed

text \<open>
  C8: a sample of zero width or zero height, or one strictly wider or taller than
  the canvas, makes the scan return success at once: the error is nil, and the
  callback is never called (nothing is recorded and its state is unchanged).
\<close>

theorem C8_degenerate_sample_empty_scan:
  assumes "Dx (Rect sample) = 0 \<or> Dy (Rect sample) = 0
           \<or> Dx (Rect canvas) < Dx (Rect sample) \<or> Dy (Rect canvas) < Dy (Rect sample)"
  shows "foreachRGBA ctx canvas sample tolerance (traced f) ([], s) = Returned None ([], s)"
  using assms by (auto simp: foreachRGBA_def wsamp_def hsamp_def)

theorem C8_witness:
  "Dx (Rect black1) < Dx (Rect black2)
   \<and> foreachRGBA cancelled black1 black2 (1 / 2) (traced stopAtFirst) ([], 0) = Returned None ([], 0)"
  using C8_degenerate_sample_empty_scan [of black2 black1 cancelled "1 / 2" stopAtFirst 0]
  by (simp add: black1_def black2_def rect_def Dx_def Dy_def)

text \<open>
  C9, as stated, fails: with a sample larger than the canvas the size check of
  line 15 returns before the context is asked, and a context that is already
  cancelled is not reported: \<open>Foreach\<close> and \<open>All\<close> return nil, \<open>Find\<close> returns
  \<open>ErrNotFound\<close>.
\<close>

theorem C9_counterexample:
  "Foreach cancelled (RGBAImage black1) (RGBAImage black2) 0 stopAtFirst 0 = Returned None 0
   \<and> All insertionSort cancelled (RGBAImage black1) (RGBAImage black2) 0 = Returned None []
   \<and> Find cancelled (RGBAImage black1) (RGBAImage black2) 0 Best = Returned (Some ErrNotFound) zeroMatch"
  by code_simp

text \<open>
  C9, amended: for RGBA images and a sample that is not empty and not larger than
  the canvas, a context whose \<open>Err()\<close> is non-nil at the first check makes each
  operation return that error with no match: \<open>Foreach\<close> never calls the callback,
  \<open>All\<close> returns the empty list, \<open>Find\<close> returns the zero match, in every mode.
\<close>

theorem C9_cancelled_before_start:
  assumes "Dx (Rect sample) \<noteq> 0" "Dy (Rect sample) \<noteq> 0"
    and "Dx (Rect sample) \<le> Dx (Rect canvas)" "Dy (Rect sample) \<le> Dy (Rect canvas)"
    and "ctx 0 = Some err" and "srt [] = []"
  shows "Foreach ctx (RGBAImage canvas) (RGBAImage sample) tolerance (traced f) ([], s)
           = Returned (Some (ContextError err)) ([], s)
         \<and> All srt ctx (RGBAImage canvas) (RGBAImage sample) tolerance
           = Returned (Some (ContextError err)) []
         \<and> Find ctx (RGBAImage canvas) (RGBAImage sample) tolerance selection
           = Returned (Some (ContextError err)) zeroMatch"
proof -
  have g: "\<not> (Dx (Rect canvas) < wsamp sample \<or> Dy (Rect canvas) < hsamp sample
         \<or> wsamp sample = 0 \<or> hsamp sample = 0)"
    using assms(1-4) by (simp add: wsamp_def hsamp_def)
  have h: "0 < hcanv canvas sample" using assms(4) by (simp add: hcanv_def hsamp_def)
  have "\<And>(g :: 'b callback) st. foreachRGBA ctx canvas sample tolerance g st
          = Returned (Some (ContextError err)) st"
    using g yLoop_cancel[where y = 0 and ctx = ctx and err = err, OF h assms(5)]
    by (simp add: foreachRGBA_def)
  then have "\<And>(g :: 'b callback) st. Foreach ctx (RGBAImage canvas) (RGBAImage sample) tolerance g st
          = Returned (Some (ContextError err)) st"
    by (simp add: Foreach_RGBA)
  note fe = this
  show ?thesis
    by (simp add: fe All_def Find_def assms(6))
qed

theorem C9_witness:
  "Dx (Rect black1) \<noteq> 0 \<and> Dy (Rect black1) \<noteq> 0
   \<and> Dx (Rect black1) \<le> Dx (Rect board) \<and> Dy (Rect black1) \<le> Dy (Rect board)
   \<and> cancelled 0 = Some Canceled \<and> insertionSort [] = []
   \<and> Foreach cancelled (RGBAImage board) (RGBAImage black1) 0 (traced stopAtFirst) ([], 0)
           = Returned (Some (ContextError Canceled)) ([], 0)
   \<and> All insertionSort cancelled (RGBAImage board) (RGBAImage black1) 0
           = Returned (Some (ContextError Canceled)) []
   \<and> Find cancelled (RGBAImage board) (RGBAImage black1) 0 Fastest
           = Returned (Some (ContextError Canceled)) zeroMatch"
proof -
  have h: "Dx (Rect black1) \<noteq> 0" "Dy (Rect black1) \<noteq> 0"
    "Dx (Rect black1) \<le> Dx (Rect board)" "Dy (Rect black1) \<le> Dy (Rect board)"
    "cancelled 0 = Some Canceled" "insertionSort [] = []"
    by (simp_all add: black1_def board_def rect_def Dx_def Dy_def cancelled_def)
  from h C9_cancelled_before_start
           [where ctx = cancelled and srt = insertionSort and tolerance = 0 and f = stopAtFirst
              and s = 0 and selection = Fastest, OF h]
  show ?thesis by blast
qed

text \<open>
  C10: every match handed to the callback has its rectangle in the coordinates of
  the canvas: \<open>Min\<close> is \<open>canvas.Rect.Min\<close> plus a window origin \<open>(x, y)\<close> of the scan,
  \<open>Max\<close> is \<open>Min\<close> plus the width and height of the sample, and the rectangle lies
  within \<open>canvas.Rect\<close>.
\<close>

theorem C10_match_rectangle_in_canvas:
  assumes "foreachRGBA ctx canvas sample tolerance (traced f) ([], s) = Returned e (tr, s')"
  shows "\<forall>(m, r) \<in> set tr.
           (\<exists>x y. 0 \<le> x \<and> x \<le> Dx (Rect canvas) - Dx (Rect sample)
                \<and> 0 \<le> y \<and> y \<le> Dy (Rect canvas) - Dy (Rect sample)
                \<and> MinPt (MRect m) = Add (MinPt (Rect canvas)) \<lparr>X = x, Y = y\<rparr>)
           \<and> MaxPt (MRect m) = Add (MinPt (MRect m)) \<lparr>X = Dx (Rect sample), Y = Dy (Rect sample)\<rparr>
           \<and> X (MinPt (Rect canvas)) \<le> X (MinPt (MRect m))
           \<and> Y (MinPt (Rect canvas)) \<le> Y (MinPt (MRect m))
           \<and> X (MaxPt (MRect m)) \<le> X (MaxPt (Rect canvas))
           \<and> Y (MaxPt (MRect m)) \<le> Y (MaxPt (Rect canvas))"
proof (rule emitted_traced[OF _ assms])
  fix x y d
  assume r: "0 \<le> x" "x < wcanv canvas sample" "0 \<le> y" "y < hcanv canvas sample"
  let ?m = "mkMatch canvas sample x y d"
  have mn: "MinPt (MRect ?m) = Add (MinPt (Rect canvas)) \<lparr>X = x, Y = y\<rparr>"
    and mx: "MaxPt (MRect ?m) = Add (MinPt (MRect ?m)) \<lparr>X = Dx (Rect sample), Y = Dy (Rect sample)\<rparr>"
    by (simp_all add: mkMatch_def Let_def wsamp_def hsamp_def)
  from r have b: "x \<le> Dx (Rect canvas) - Dx (Rect sample)" "y \<le> Dy (Rect canvas) - Dy (Rect sample)"
    by (simp_all add: wcanv_def hcanv_def wsamp_def hsamp_def)
  have "\<exists>x y. 0 \<le> x \<and> x \<le> Dx (Rect canvas) - Dx (Rect sample)
                \<and> 0 \<le> y \<and> y \<le> Dy (Rect canvas) - Dy (Rect sample)
                \<and> MinPt (MRect ?m) = Add (MinPt (Rect canvas)) \<lparr>X = x, Y = y\<rparr>"
    using r(1,3) b mn by blast
  moreover have "X (MinPt (Rect canvas)) \<le> X (MinPt (MRect ?m))"
    "Y (MinPt (Rect canvas)) \<le> Y (MinPt (MRect ?m))"
    "X (MaxPt (MRect ?m)) \<le> X (MaxPt (Rect canvas))"
    "Y (MaxPt (MRect ?m)) \<le> Y (MaxPt (Rect canvas))"
    using r(1,3) b by (simp_all add: mkMatch_def Let_def Add_def wsamp_def hsamp_def Dx_def Dy_def)
  ultimately show "(\<exists>x y. 0 \<le> x \<and> x \<le> Dx (Rect canvas) - Dx (Rect sample)
                \<and> 0 \<le> y \<and> y \<le> Dy (Rect canvas) - Dy (Rect sample)
                \<and> MinPt (MRect ?m) = Add (MinPt (Rect canvas)) \<lparr>X = x, Y = y\<rparr>)
           \<and> MaxPt (MRect ?m) = Add (MinPt (MRect ?m)) \<lparr>X = Dx (Rect sample), Y = Dy (Rect sample)\<rparr>
           \<and> X (MinPt (Rect canvas)) \<le> X (MinPt (MRect ?m))
           \<and> Y (MinPt (Rect canvas)) \<le> Y (MinPt (MRect ?m))
           \<and> X (MaxPt (MRect ?m)) \<le> X (MaxPt (Rect canvas))
           \<and> Y (MaxPt (MRect ?m)) \<le> Y (MaxPt (Rect canvas))"
    using mx by blast
qed simp

theorem C10_witness:
  "foreachRGBA background board black1 0 (traced allCallback) ([], [])
     = Returned None
        ([(\<lparr>MRect = rect 10 20 11 21, Similarity = 1\<rparr>, None),
          (\<lparr>MRect = rect 12 20 13 21, Similarity = 1\<rparr>, None),
          (\<lparr>MRect = rect 10 21 11 22, Similarity = 1\<rparr>, None),
          (\<lparr>MRect = rect 11 21 12 22, Similarity = 1\<rparr>, None)],
         [\<lparr>MRect = rect 10 20 11 21, Similarity = 1\<rparr>,
          \<lparr>MRect = rect 12 20 13 21, Similarity = 1\<rparr>,
          \<lparr>MRect = rect 10 21 11 22, Similarity = 1\<rparr>,
          \<lparr>MRect = rect 11 21 12 22, Similarity = 1\<rparr>])
   \<and> X (MinPt (Rect board)) \<le> X (MinPt (rect 12 20 13 21))
   \<and> Y (MinPt (Rect board)) \<le> Y (MinPt (rect 12 20 13 21))
   \<and> X (MaxPt (rect 12 20 13 21)) \<le> X (MaxPt (Rect board))
   \<and> Y (MaxPt (rect 12 20 13 21)) \<le> Y (MaxPt (Rect board))"
proof -
  have a: "foreachRGBA background board black1 0 (traced allCallback) ([], [])
     = Returned None
        ([(\<lparr>MRect = rect 10 20 11 21, Similarity = 1\<rparr>, None),
          (\<lparr>MRect = rect 12 20 13 21, Similarity = 1\<rparr>, None),
          (\<lparr>MRect = rect 10 21 11 22, Similarity = 1\<rparr>, None),
          (\<lparr>MRect = rect 11 21 12 22, Similarity = 1\<rparr>, None)],
         [\<lparr>MRect = rect 10 20 11 21, Similarity = 1\<rparr>,
          \<lparr>MRect = rect 12 20 13 21, Similarity = 1\<rparr>,
          \<lparr>MRect = rect 10 21 11 22, Similarity = 1\<rparr>,
          \<lparr>MRect = rect 11 21 12 22, Similarity = 1\<rparr>])"
    by code_simp
  from C10_match_rectangle_in_canvas [OF a]
  have b: "X (MinPt (Rect board)) \<le> X (MinPt (rect 12 20 13 21))
   \<and> Y (MinPt (Rect board)) \<le> Y (MinPt (rect 12 20 13 21))
   \<and> X (MaxPt (rect 12 20 13 21)) \<le> X (MaxPt (Rect board))
   \<and> Y (MaxPt (rect 12 20 13 21)) \<le> Y (MaxPt (Rect board))"
    by (simp add: rect_def board_def black1_def Add_def Dx_def Dy_def)
  from a b show ?thesis by (rule conjI)
qed

end
